theory Spec2Isabelle
  imports Main
begin

section \<open>The monorepo importer (pkg/monoimporter/monoimporter.go)\<close>

text \<open>
  A shallow embedding of package \<open>monoimporter\<close>: the four finders, the chain \<open>find\<close>,
  the constructors \<open>New\<close> and \<open>NewFromZips\<close>, and \<open>Importer.Import\<close>.

  Go strings are byte sequences, so a Go string is a \<open>string\<close> here. The code reads the
  file system and opens and closes files; that is made explicit: every function that does I/O
  takes the \<open>world\<close> (the table of open descriptors and the log of the calls made so far)
  and returns the new one. What the operating system and the libraries answer (\<open>os.Stat\<close>,
  \<open>os.Open\<close>, \<open>filepath.Join\<close>, \<open>filepath.Match\<close>, \<open>filepath.Base\<close>,
  \<open>zip.OpenReader\<close>, \<open>gcexportdata.NewReader\<close>, \<open>gcexportdata.Read\<close>) is not code of
  this package; it is a parameter, the record \<open>env\<close>.
\<close>

subsection \<open>Values of the Go libraries\<close>

text \<open>
  Go's \<open>error\<close> values. The first four stand for what the libraries return; the last two
  are the two errors this package builds itself with \<open>fmt.Errorf\<close>:
  \<open>ArchiveNotPair xs\<close> is \<open>"archive %q is not goImportPath:goArchiveFilePath"\<close> formatted
  with the slice \<open>xs\<close>, and \<open>PackageNotFound p\<close> is \<open>"package %q not found"\<close> formatted
  with the import path \<open>p\<close>.
\<close>

datatype error =
    ErrNotExist
  | ErrPermission
  | ErrBadPattern
  | ErrFormat string
  | ArchiveNotPair "string list"
  | PackageNotFound string

type_synonym bytes = "char list"

text \<open>The three fields of \<open>build.Context\<close> that the package reads.\<close>

record Context =
  GOOS :: string
  GOARCH :: string
  InstallSuffix :: string

text \<open>
  \<open>*types.Package\<close>, as far as the importer looks at it: its path, its name and the flag
  behind \<open>Complete()\<close>.
\<close>

record Package =
  pkg_path :: string
  pkg_name :: string
  complete :: bool

definition Complete :: "Package \<Rightarrow> bool" where
  "Complete pkg = complete pkg"

text \<open>\<open>types.Unsafe\<close>: go/types creates it as package "unsafe" and marks it complete.\<close>

definition Unsafe :: Package where
  "Unsafe = \<lparr>pkg_path = ''unsafe'', pkg_name = ''unsafe'', complete = True\<rparr>"

text \<open>\<open>*token.FileSet\<close>: the names of the files registered so far.\<close>

type_synonym FileSet = "string list"

definition NewFileSet :: FileSet where
  "NewFileSet = []"

text \<open>
  A \<open>*zip.File\<close> of a bundle's table of contents: its name and what its \<open>Open()\<close> gives.
\<close>

record zip_File =
  zf_Name :: string
  zf_Open :: "error + bytes"

type_synonym zip_Reader = "zip_File list"

subsection \<open>Open files and the world\<close>

datatype origin = OsFile string | ZipMember string

text \<open>An \<open>io.ReadCloser\<close>: the descriptor behind it, where it was opened, what it reads.\<close>

record stream =
  s_fd :: nat
  s_origin :: origin
  s_data :: bytes

datatype event =
    EvStat string
  | EvOpen string "nat option"
  | EvZipOpen string "nat option"
  | EvOpenReader string "nat option"
  | EvClose nat
  | EvLogPrintf string error

record world =
  next_fd :: nat
  open_fds :: "nat list"
  log :: "event list"

definition world0 :: world where
  "world0 = \<lparr>next_fd = 0, open_fds = [], log = []\<rparr>"

type_synonym imports_map = "string \<rightharpoonup> Package"

record env =
  os_Stat :: "string \<Rightarrow> error + bool"
  os_Open :: "string \<Rightarrow> error + bytes"
  filepath_Join :: "string \<Rightarrow> string \<Rightarrow> string"
  filepath_Base :: "string \<Rightarrow> string"
  filepath_Match :: "string \<Rightarrow> string \<Rightarrow> error + bool"
  zip_OpenReader :: "string \<Rightarrow> error + zip_Reader"
  gcexportdata_NewReader :: "bytes \<Rightarrow> error + bytes"
  gcexportdata_Read ::
    "bytes \<Rightarrow> FileSet \<Rightarrow> imports_map \<Rightarrow> string \<Rightarrow> (error + Package) \<times> FileSet \<times> imports_map"

text \<open>
  \<open>os.Stat(name)\<close> followed by \<open>fi.IsDir()\<close>: the answer is an error or whether the path
  is a directory.
\<close>

definition do_Stat :: "env \<Rightarrow> string \<Rightarrow> world \<Rightarrow> (error + bool) \<times> world" where
  "do_Stat e name w = (os_Stat e name, w\<lparr>log := log w @ [EvStat name]\<rparr>)"

text \<open>A successful open takes the next descriptor.\<close>

definition do_Open :: "env \<Rightarrow> string \<Rightarrow> world \<Rightarrow> (error + stream) \<times> world" where
  "do_Open e name w =
     (case os_Open e name of
        Inl err \<Rightarrow> (Inl err, w\<lparr>log := log w @ [EvOpen name None]\<rparr>)
      | Inr d \<Rightarrow>
          (Inr \<lparr>s_fd = next_fd w, s_origin = OsFile name, s_data = d\<rparr>,
           w\<lparr>next_fd := Suc (next_fd w),
             open_fds := next_fd w # open_fds w,
             log := log w @ [EvOpen name (Some (next_fd w))]\<rparr>))"

definition do_zip_File_Open :: "zip_File \<Rightarrow> world \<Rightarrow> (error + stream) \<times> world" where
  "do_zip_File_Open f w =
     (case zf_Open f of
        Inl err \<Rightarrow> (Inl err, w\<lparr>log := log w @ [EvZipOpen (zf_Name f) None]\<rparr>)
      | Inr d \<Rightarrow>
          (Inr \<lparr>s_fd = next_fd w, s_origin = ZipMember (zf_Name f), s_data = d\<rparr>,
           w\<lparr>next_fd := Suc (next_fd w),
             open_fds := next_fd w # open_fds w,
             log := log w @ [EvZipOpen (zf_Name f) (Some (next_fd w))]\<rparr>))"

text \<open>\<open>zip.OpenReader\<close> opens the bundle file and keeps it open.\<close>

definition do_zip_OpenReader :: "env \<Rightarrow> string \<Rightarrow> world \<Rightarrow> (error + zip_Reader) \<times> world" where
  "do_zip_OpenReader e name w =
     (case zip_OpenReader e name of
        Inl err \<Rightarrow> (Inl err, w\<lparr>log := log w @ [EvOpenReader name None]\<rparr>)
      | Inr r \<Rightarrow>
          (Inr r,
           w\<lparr>next_fd := Suc (next_fd w),
             open_fds := next_fd w # open_fds w,
             log := log w @ [EvOpenReader name (Some (next_fd w))]\<rparr>))"

definition do_Close :: "stream \<Rightarrow> world \<Rightarrow> world" where
  "do_Close s w =
     w\<lparr>open_fds := removeAll (s_fd s) (open_fds w), log := log w @ [EvClose (s_fd s)]\<rparr>"

subsection \<open>Package strings\<close>

definition HasPrefix :: "string \<Rightarrow> string \<Rightarrow> bool" where
  "HasPrefix s p = (length p \<le> length s \<and> take (length p) s = p)"

definition HasSuffix :: "string \<Rightarrow> string \<Rightarrow> bool" where
  "HasSuffix s suf = (length suf \<le> length s \<and> drop (length s - length suf) s = suf)"

definition TrimPrefix :: "string \<Rightarrow> string \<Rightarrow> string" where
  "TrimPrefix s p = (if HasPrefix s p then drop (length p) s else s)"

text \<open>
  \<open>strings.Split(s, sep)\<close> for a separator of one byte: the pieces between the separators,
  one more than there are separators. \<open>acc\<close> is the piece being read, backwards.
\<close>

fun split_from :: "char \<Rightarrow> string \<Rightarrow> string \<Rightarrow> string list" where
  "split_from sep acc [] = [rev acc]"
| "split_from sep acc (c # cs) =
     (if c = sep then rev acc # split_from sep [] cs else split_from sep (c # acc) cs)"

definition Split :: "string \<Rightarrow> char \<Rightarrow> string list" where
  "Split s sep = split_from sep [] s"

subsection \<open>The finders\<close>

text \<open>
  The interface \<open>finder\<close> has the one method \<open>findAndOpen(pkg string) io.ReadCloser\<close>. A
  value of the interface is the method bound to its receiver: a function from the import
  path and the world to the stream, or \<open>None\<close> for Go's \<open>nil\<close>, and the new world.
  In a \<open>[]finder\<close> an element may itself be the \<open>nil\<close> interface value: \<open>None\<close>.
\<close>

type_synonym ('w, 's) finder = "string \<Rightarrow> 'w \<Rightarrow> 's option \<times> 'w"

fun find :: "('w, 's) finder option list \<Rightarrow> string \<Rightarrow> 'w \<Rightarrow> 's option \<times> 'w" where
  "find [] pkg w = (None, w)"
| "find (None # finders) pkg w = find finders pkg w"
| "find (Some f # finders) pkg w =
     (case f pkg w of
        (Some file, w') \<Rightarrow> (Some file, w')
      | (None, w') \<Rightarrow> find finders pkg w')"

record zipReader =
  z_ctxt :: Context
  z_stdlib :: zip_Reader
  z_files :: "string \<rightharpoonup> zip_File"

definition newZipReader :: "zip_Reader \<Rightarrow> Context \<Rightarrow> zipReader" where
  "newZipReader stdlib ctxt =
     \<lparr>z_ctxt = ctxt,
      z_stdlib = stdlib,
      z_files = foldl (\<lambda>m file. m(zf_Name file \<mapsto> file)) Map.empty stdlib\<rparr>"

definition goEnvDir :: "Context \<Rightarrow> string" where
  "goEnvDir ctxt =
     (let suffix = (if length (InstallSuffix ctxt) > 0 then ''_'' @ InstallSuffix ctxt else '''')
      in GOOS ctxt @ ''_'' @ GOARCH ctxt @ suffix)"

definition zipReader_findAndOpen :: "zipReader \<Rightarrow> string \<Rightarrow> world \<Rightarrow> stream option \<times> world" where
  "zipReader_findAndOpen z pkg0 w =
     (let pkg = TrimPrefix pkg0 ''google3/'';
          name = goEnvDir (z_ctxt z) @ ''/'' @ pkg @ ''.x''
      in case z_files z name of
           None \<Rightarrow> (None, w)
         | Some f \<Rightarrow>
             (case do_zip_File_Open f w of
                (Inl err, w') \<Rightarrow> (None, w')
              | (Inr rc, w') \<Rightarrow> (Some rc, w')))"

record stdlibArchives =
  sa_ctxt :: Context
  sa_archs :: "string list"

text \<open>The loop of \<open>stdlibArchives.findAndOpen\<close> over \<open>a.archs\<close>.\<close>

fun stdlib_range :: "env \<Rightarrow> string \<Rightarrow> string list \<Rightarrow> world \<Rightarrow> stream option \<times> world" where
  "stdlib_range e name [] w = (None, w)"
| "stdlib_range e name (filename # rest) w =
     (let (st, w1) = do_Stat e filename w;
          (found, w2) =
            (if st = Inr True
             then (case do_Open e (filepath_Join e filename name) w1 of
                     (Inr f, w') \<Rightarrow> (Some f, w')
                   | (Inl err, w') \<Rightarrow> (None, w'))
             else (None, w1))
      in case found of
           Some f \<Rightarrow> (Some f, w2)
         | None \<Rightarrow>
             (if HasSuffix filename name
              then (case do_Open e filename w2 of
                      (Inr ar, w3) \<Rightarrow> (Some ar, w3)
                    | (Inl err, w3) \<Rightarrow> stdlib_range e name rest w3)
              else stdlib_range e name rest w2))"

definition stdlibArchives_findAndOpen ::
  "env \<Rightarrow> stdlibArchives \<Rightarrow> string \<Rightarrow> world \<Rightarrow> stream option \<times> world" where
  "stdlibArchives_findAndOpen e a pkg w =
     (let name = ''/'' @ goEnvDir (sa_ctxt a) @ ''/'' @ pkg @ ''.a''
      in stdlib_range e name (sa_archs a) w)"

record unmappedArchives =
  ua_archs :: "string list"

text \<open>The loop of \<open>unmappedArchives.findAndOpen\<close> over \<open>a.archs\<close>.\<close>

fun unmapped_range :: "env \<Rightarrow> string \<Rightarrow> string list \<Rightarrow> world \<Rightarrow> stream option \<times> world" where
  "unmapped_range e name [] w = (None, w)"
| "unmapped_range e name (filename # rest) w =
     (if HasSuffix filename name
      then (case do_Open e filename w of
              (Inr ar, w') \<Rightarrow> (Some ar, w')
            | (Inl err, w') \<Rightarrow> unmapped_range e name rest w')
      else unmapped_range e name rest w)"

definition unmappedArchives_findAndOpen ::
  "env \<Rightarrow> unmappedArchives \<Rightarrow> string \<Rightarrow> world \<Rightarrow> stream option \<times> world" where
  "unmappedArchives_findAndOpen e a pkg0 w =
     (let pkg = TrimPrefix pkg0 ''google3/'';
          name = ''/'' @ pkg @ ''.x''
      in unmapped_range e name (ua_archs a) w)"

record mappedArchives =
  ma_pkgs :: "string \<rightharpoonup> string"

definition mappedArchives_findAndOpen ::
  "env \<Rightarrow> mappedArchives \<Rightarrow> string \<Rightarrow> world \<Rightarrow> stream option \<times> world" where
  "mappedArchives_findAndOpen e a pkg w =
     (case ma_pkgs a pkg of
        Some filename \<Rightarrow>
          (case do_Open e filename w of
             (Inr f, w') \<Rightarrow> (Some f, w')
           | (Inl err, w') \<Rightarrow> (None, w'))
      | None \<Rightarrow> (None, w))"

subsection \<open>The importer\<close>

text \<open>
  The four strategy fields are pointers; \<open>None\<close> is \<open>nil\<close>. \<open>i_imports\<close> is the field
  \<open>imports\<close>, a Go map shared
  with the decoder, which writes to it: \<open>Import\<close> returns the importer with the map as the
  decoder left it.
\<close>

record Importer =
  fset :: FileSet
  i_imports :: imports_map
  mapped :: "mappedArchives option"
  unmapped :: "unmappedArchives option"
  stdlib :: "stdlibArchives option"
  stdlibZip :: "zipReader option"

definition New ::
  "Context \<Rightarrow> unmappedArchives option \<Rightarrow> mappedArchives option \<Rightarrow> stdlibArchives option \<Rightarrow>
   zip_Reader option \<Rightarrow> Importer" where
  "New ctxt ua ma sa stdlibZip_arg =
     (let i = \<lparr>fset = NewFileSet,
               i_imports = [''unsafe'' \<mapsto> Unsafe],
               mapped = ma,
               unmapped = ua,
               stdlib = sa,
               stdlibZip = None\<rparr>
      in case stdlibZip_arg of
           Some r \<Rightarrow> i\<lparr>stdlibZip := Some (newZipReader r ctxt)\<rparr>
         | None \<Rightarrow> i)"

text \<open>The first loop of \<open>NewFromZips\<close>: the bundle whose base name matches the pattern.\<close>

fun select_stdlib_zip ::
  "env \<Rightarrow> string \<Rightarrow> string list \<Rightarrow> world \<Rightarrow> (error + zip_Reader option) \<times> world" where
  "select_stdlib_zip e wantPattern [] w = (Inr None, w)"
| "select_stdlib_zip e wantPattern (dir # rest) w =
     (case filepath_Match e wantPattern (filepath_Base e dir) of
        Inl err \<Rightarrow>
          select_stdlib_zip e wantPattern rest (w\<lparr>log := log w @ [EvLogPrintf wantPattern err]\<rparr>)
      | Inr matched \<Rightarrow>
          (if matched
           then (case do_zip_OpenReader e dir w of
                   (Inl err, w') \<Rightarrow> (Inl err, w')
                 | (Inr stdlibZ, w') \<Rightarrow> (Inr (Some stdlibZ), w'))
           else select_stdlib_zip e wantPattern rest w))"

text \<open>The second loop of \<open>NewFromZips\<close>: the map of the \<open>goImportPath:goArchiveFile\<close> pairs.\<close>

fun fill_mapped :: "string list \<Rightarrow> (string \<rightharpoonup> string) \<Rightarrow> error + (string \<rightharpoonup> string)" where
  "fill_mapped [] pkgs = Inr pkgs"
| "fill_mapped (archive # rest) pkgs =
     (let nameAndFile = Split archive (CHR '':'')
      in if length nameAndFile \<noteq> 2
         then Inl (ArchiveNotPair nameAndFile)
         else fill_mapped rest (pkgs(nameAndFile ! 0 \<mapsto> nameAndFile ! 1)))"

definition NewFromZips ::
  "env \<Rightarrow> Context \<Rightarrow> string list \<Rightarrow> string list \<Rightarrow> string list \<Rightarrow> string list \<Rightarrow> world \<Rightarrow>
   (error + Importer) \<times> world" where
  "NewFromZips e ctxt unmappedArchs mappedArchs stdlibArchs stdlibZips w =
     (let ctxtWithWildcard = ctxt\<lparr>GOARCH := GOARCH ctxt @ ''*''\<rparr>;
          wantPattern = goEnvDir ctxtWithWildcard @ ''.x.zip''
      in case select_stdlib_zip e wantPattern stdlibZips w of
           (Inl err, w') \<Rightarrow> (Inl err, w')
         | (Inr stdlib_r, w') \<Rightarrow>
             (case fill_mapped mappedArchs Map.empty of
                Inl err \<Rightarrow> (Inl err, w')
              | Inr pkgs \<Rightarrow>
                  (let ma = \<lparr>ma_pkgs = pkgs\<rparr>;
                       sa = \<lparr>sa_ctxt = ctxt, sa_archs = stdlibArchs\<rparr>;
                       ua = \<lparr>ua_archs = unmappedArchs\<rparr>
                   in (Inr (New ctxt (Some ua) (Some ma) (Some sa) stdlib_r), w'))))"

text \<open>Lines 275 to 294 of \<open>Import\<close>: the finders that are configured, in the order of the code.\<close>

definition build_finders :: "env \<Rightarrow> Importer \<Rightarrow> (world, stream) finder option list" where
  "build_finders e i =
     (let finders = [];
          finders = (case stdlibZip i of
                       Some z \<Rightarrow> finders @ [Some (zipReader_findAndOpen z)]
                     | None \<Rightarrow> finders);
          finders = (case mapped i of
                       Some m \<Rightarrow> finders @ [Some (mappedArchives_findAndOpen e m)]
                     | None \<Rightarrow> finders);
          finders = (case stdlib i of
                       Some s \<Rightarrow> finders @ [Some (stdlibArchives_findAndOpen e s)]
                     | None \<Rightarrow> finders);
          finders = (case unmapped i of
                       Some u \<Rightarrow> finders @ [Some (unmappedArchives_findAndOpen e u)]
                     | None \<Rightarrow> finders)
      in finders)"

text \<open>
  Lines 299 to 305 of \<open>Import\<close>: the deferred \<open>file.Close()\<close> runs when the function
  returns, after the reader could not be built, or after \<open>gcexportdata.Read\<close>.
\<close>

definition decode_file ::
  "env \<Rightarrow> Importer \<Rightarrow> string \<Rightarrow> stream \<Rightarrow> world \<Rightarrow> (error + Package) \<times> Importer \<times> world" where
  "decode_file e i importPath file w =
     (case gcexportdata_NewReader e (s_data file) of
        Inl err \<Rightarrow> (Inl err, i, do_Close file w)
      | Inr r \<Rightarrow>
          (case gcexportdata_Read e r (fset i) (i_imports i) importPath of
             (res, fset', imports') \<Rightarrow>
               (res, i\<lparr>fset := fset', i_imports := imports'\<rparr>, do_Close file w)))"

definition Import ::
  "env \<Rightarrow> Importer \<Rightarrow> string \<Rightarrow> world \<Rightarrow> (error + Package) \<times> Importer \<times> world" where
  "Import e i importPath w =
     (case (case i_imports i importPath of
              Some pkg \<Rightarrow> if Complete pkg then Some pkg else None
            | None \<Rightarrow> None) of
        Some pkg \<Rightarrow> (Inr pkg, i, w)
      | None \<Rightarrow>
          (case find (build_finders e i) importPath w of
             (None, w') \<Rightarrow> (Inl (PackageNotFound importPath), i, w')
           | (Some file, w') \<Rightarrow> decode_file e i importPath file w'))"

subsection \<open>Notions used in the statements\<close>

text \<open>The condition of the first \<open>if\<close> of \<open>Import\<close>: the cache holds a complete entry.\<close>

definition cache_hit :: "Importer \<Rightarrow> string \<Rightarrow> bool" where
  "cache_hit i p = (case i_imports i p of Some pkg \<Rightarrow> Complete pkg | None \<Rightarrow> False)"

text \<open>The pattern \<open>NewFromZips\<close> matches the base names of the bundles against.\<close>

definition wantPattern_of :: "Context \<Rightarrow> string" where
  "wantPattern_of ctxt = goEnvDir (ctxt\<lparr>GOARCH := GOARCH ctxt @ ''*''\<rparr>) @ ''.x.zip''"

text \<open>
  A finder that also writes down, beside the world, that finder number \<open>k\<close> was called and
  what it returned; \<open>recording_all\<close> numbers the entries of a list of finders by position,
  and \<open>configured\<close> gives the positions that are not \<open>nil\<close>.
\<close>

definition recording :: "nat \<Rightarrow> ('w, 's) finder \<Rightarrow> ('w \<times> (nat \<times> 's option) list, 's) finder" where
  "recording k f pkg = (\<lambda>(w, calls). case f pkg w of (r, w') \<Rightarrow> (r, (w', calls @ [(k, r)])))"

definition recording_all ::
  "nat \<Rightarrow> ('w, 's) finder option list \<Rightarrow> ('w \<times> (nat \<times> 's option) list, 's) finder option list" where
  "recording_all k finders = map (\<lambda>(j, f). map_option (recording j) f) (enumerate k finders)"

definition configured :: "nat \<Rightarrow> 'a option list \<Rightarrow> nat list" where
  "configured k finders = map fst (filter (\<lambda>(j, f). f \<noteq> None) (enumerate k finders))"

text \<open>
  What a finder may do to the world: nothing but failed attempts (\<open>quiet\<close>), or failed
  attempts and then the one successful open whose descriptor it returns (\<open>opened\<close>).
\<close>

definition no_close :: "event list \<Rightarrow> bool" where
  "no_close evs = (\<forall>fd. EvClose fd \<notin> set evs)"

definition quiet :: "world \<Rightarrow> world \<Rightarrow> bool" where
  "quiet w w' =
     (next_fd w' = next_fd w \<and> open_fds w' = open_fds w \<and>
      (\<exists>evs. log w' = log w @ evs \<and> no_close evs))"

definition opened :: "world \<Rightarrow> stream \<Rightarrow> world \<Rightarrow> bool" where
  "opened w s w' =
     (s_fd s = next_fd w \<and> next_fd w' = Suc (next_fd w) \<and> open_fds w' = s_fd s # open_fds w \<and>
      (\<exists>evs. log w' = log w @ evs \<and> no_close evs))"

definition outcome :: "world \<Rightarrow> stream option \<times> world \<Rightarrow> bool" where
  "outcome w rw = (case fst rw of None \<Rightarrow> quiet w (snd rw) | Some s \<Rightarrow> opened w s (snd rw))"

text \<open>A strategy field that may be \<open>nil\<close>, run as a finder; one round of the stdlib loop.\<close>

definition run_opt ::
  "('a \<Rightarrow> (world, stream) finder) \<Rightarrow> 'a option \<Rightarrow> string \<Rightarrow> world \<Rightarrow> stream option \<times> world" where
  "run_opt m a p w = (case a of None \<Rightarrow> (None, w) | Some x \<Rightarrow> m x p w)"

definition opt_finder :: "('a \<Rightarrow> ('w, 's) finder) \<Rightarrow> 'a option \<Rightarrow> ('w, 's) finder option list" where
  "opt_finder m a = (case a of None \<Rightarrow> [] | Some x \<Rightarrow> [Some (m x)])"


subsection \<open>A small file system to evaluate the model on\<close>

text \<open>
  One directory of standard-library archives (\<open>std\<close>), archive files given one by one, a
  bundle with one member that opens and one that does not, and paths that are configured
  but not on disk (\<open>gone...\<close>). The stand-in for the decoder refuses an empty stream and a
  stream that starts with \<open>!\<close>, and otherwise returns a complete package named after the
  bytes it read, so that the result shows which stream was decoded.
\<close>

definition ctxt_linux :: Context where
  "ctxt_linux = \<lparr>GOOS = ''linux'', GOARCH = ''amd64'', InstallSuffix = ''''\<rparr>"

definition demo_files :: "(string \<times> bytes) list" where
  "demo_files =
     [(''std/linux_amd64/fmt.a'', ''FMT''),
      (''lib/linux_amd64/errors.a'', ''ERRORS''),
      (''vendor/pkg/errors.x'', ''VENDOR''),
      (''ext/yaml.a'', ''YAML''),
      (''third_party/yaml.x'', ''TPYAML''),
      (''lib/linux_amd64/os.a'', ''''),
      (''lib/linux_amd64/io.a'', ''!'')]"

definition demo_bundle :: zip_Reader where
  "demo_bundle =
     [\<lparr>zf_Name = ''linux_amd64/fmt.x'', zf_Open = Inr ''ZFMT''\<rparr>,
      \<lparr>zf_Name = ''linux_amd64/net.x'', zf_Open = Inl (ErrFormat ''unsupported compression'')\<rparr>]"

definition env_demo :: env where
  "env_demo =
     \<lparr>os_Stat = (\<lambda>n. if n = ''std'' then Inr True
                     else if n \<in> set (map fst demo_files) then Inr False
                     else Inl ErrNotExist),
      os_Open = (\<lambda>n. case map_of demo_files n of Some d \<Rightarrow> Inr d | None \<Rightarrow> Inl ErrNotExist),
      filepath_Join = (\<lambda>d n. d @ n),
      filepath_Base = (\<lambda>n. last (Split n (CHR ''/''))),
      filepath_Match = (\<lambda>pat n. Inr (pat = ''linux_amd64*.x.zip'' \<and> n = ''linux_amd64.x.zip'')),
      zip_OpenReader = (\<lambda>n. if n = ''tools/linux_amd64.x.zip'' then Inr demo_bundle
                            else Inl ErrNotExist),
      gcexportdata_NewReader = (\<lambda>d. if d = [] then Inl (ErrFormat ''no export data'') else Inr d),
      gcexportdata_Read = (\<lambda>r fs m p.
         if take 1 r = ''!'' then (Inl (ErrFormat ''bad export data''), fs, m)
         else (Inr \<lparr>pkg_path = p, pkg_name = r, complete = True\<rparr>, fs,
               m(p \<mapsto> \<lparr>pkg_path = p, pkg_name = r, complete = True\<rparr>)))\<rparr>"


definition demo_finders :: "(nat, string) finder option list" where
  "demo_finders =
     [None,
      Some (\<lambda>p w. (None, w + 1)),
      Some (\<lambda>p w. (Some (p @ ''.a''), w + 10)),
      Some (\<lambda>p w. (Some ''later'', w + 100))]"

definition imp_exact :: Importer where
  "imp_exact =
     New ctxt_linux (Some \<lparr>ua_archs = [''vendor/pkg/errors.x'']\<rparr>)
       (Some \<lparr>ma_pkgs = [''errors'' \<mapsto> ''gone.a'']\<rparr>)
       (Some \<lparr>sa_ctxt = ctxt_linux, sa_archs = []\<rparr>) None"


definition imp_full :: Importer where
  "imp_full =
     New ctxt_linux (Some \<lparr>ua_archs = [''vendor/pkg/errors.x'', ''third_party/yaml.x'']\<rparr>)
       (Some \<lparr>ma_pkgs = [''yaml'' \<mapsto> ''ext/yaml.a'', ''net'' \<mapsto> ''gone.a'']\<rparr>)
       (Some \<lparr>sa_ctxt = ctxt_linux,
              sa_archs = [''gone/linux_amd64/errors.a'', ''lib/linux_amd64/errors.a'',
                          ''lib/linux_amd64/os.a'', ''lib/linux_amd64/io.a'', ''std'']\<rparr>)
       (Some demo_bundle)"











section \<open>Properties\<close>

subsection \<open>The chain\<close>

lemma find_recording_gen:
  "find (recording_all k finders) pkg (w, acc) = (r, (w', calls)) \<Longrightarrow>
     find finders pkg w = (r, w') \<and>
     (\<exists>new. calls = acc @ new \<and>
        map fst new = take (length new) (configured k finders) \<and>
        (r = None \<longrightarrow> length new = length (configured k finders) \<and> (\<forall>c\<in>set new. snd c = None)) \<and>
        (\<forall>s. r = Some s \<longrightarrow> new \<noteq> [] \<and> snd (last new) = Some s \<and> (\<forall>c\<in>set (butlast new). snd c = None)))"
proof (induction finders arbitrary: k w acc)
  case Nil
  then show ?case by (simp add: recording_all_def configured_def)
next
  case (Cons fo finders)
  show ?case
  proof (cases fo)
    case None
    with Cons.prems have "find (recording_all (Suc k) finders) pkg (w, acc) = (r, (w', calls))"
      by (simp add: recording_all_def)
    from Cons.IH [OF this] show ?thesis using None
      by (simp add: configured_def)
  next
    case (Some f)
    obtain r1 w1 where f: "f pkg w = (r1, w1)" by (cases "f pkg w")
    show ?thesis
    proof (cases r1)
      case None
      with Cons.prems Some f
      have "find (recording_all (Suc k) finders) pkg (w1, acc @ [(k, None)]) = (r, (w', calls))"
        by (simp add: recording_all_def recording_def)
      from Cons.IH [OF this] obtain new where
        a: "find finders pkg w1 = (r, w')" and b: "calls = (acc @ [(k, None)]) @ new"
        and c: "map fst new = take (length new) (configured (Suc k) finders)"
        and d: "r = None \<longrightarrow> length new = length (configured (Suc k) finders) \<and> (\<forall>c\<in>set new. snd c = None)"
        and e: "\<forall>s. r = Some s \<longrightarrow> new \<noteq> [] \<and> snd (last new) = Some s \<and> (\<forall>c\<in>set (butlast new). snd c = None)"
        by blast
      let ?new = "(k, None) # new"
      have "calls = acc @ ?new" using b by simp
      moreover have "map fst ?new = take (length ?new) (configured k (fo # finders))"
        using c Some by (simp add: configured_def)
      moreover have "r = None \<longrightarrow> length ?new = length (configured k (fo # finders)) \<and> (\<forall>c\<in>set ?new. snd c = None)"
        using d Some by (simp add: configured_def)
      moreover have "\<forall>s. r = Some s \<longrightarrow> ?new \<noteq> [] \<and> snd (last ?new) = Some s \<and> (\<forall>c\<in>set (butlast ?new). snd c = None)"
        using e by auto
      moreover have "find (fo # finders) pkg w = (r, w')" using a Some f None by simp
      ultimately show ?thesis by blast
    next
      case (Some s)
      with Cons.prems \<open>fo = Some f\<close> f
      have "r = Some s" "w' = w1" "calls = acc @ [(k, Some s)]"
        by (auto simp add: recording_all_def recording_def)
      then show ?thesis using \<open>fo = Some f\<close> f Some
        by (simp add: configured_def)
    qed
  qed
qed

lemma find_append:
  "find (xs @ ys) p w =
     (case find xs p w of (Some rc, w1) \<Rightarrow> (Some rc, w1) | (None, w1) \<Rightarrow> find ys p w1)"
proof (induction xs arbitrary: w)
  case Nil
  then show ?case by simp
next
  case (Cons fo xs)
  show ?case
  proof (cases fo)
    case None
    then show ?thesis using Cons.IH by simp
  next
    case (Some f)
    obtain r w1 where f: "f p w = (r, w1)" by (cases "f p w")
    show ?thesis using Some f Cons.IH [of w1] by (cases r) simp_all
  qed
qed

lemma find_opt_finder: "find (opt_finder m a) p w = run_opt m a p w"
proof (cases a)
  case None
  then show ?thesis by (simp add: opt_finder_def run_opt_def)
next
  case (Some x)
  obtain r w1 where "m x p w = (r, w1)" by (cases "m x p w")
  then show ?thesis using Some by (cases r) (simp_all add: opt_finder_def run_opt_def)
qed

lemma build_finders_append:
  "build_finders e i =
     opt_finder zipReader_findAndOpen (stdlibZip i) @
     opt_finder (mappedArchives_findAndOpen e) (mapped i) @
     opt_finder (stdlibArchives_findAndOpen e) (stdlib i) @
     opt_finder (unmappedArchives_findAndOpen e) (unmapped i)"
  by (cases "stdlibZip i"; cases "mapped i"; cases "stdlib i"; cases "unmapped i")
    (simp_all add: build_finders_def opt_finder_def)

lemma find_chain:
  "find (build_finders e i) p w =
     (case run_opt zipReader_findAndOpen (stdlibZip i) p w of
        (Some rc, w1) \<Rightarrow> (Some rc, w1)
      | (None, w1) \<Rightarrow>
          (case run_opt (mappedArchives_findAndOpen e) (mapped i) p w1 of
             (Some rc, w2) \<Rightarrow> (Some rc, w2)
           | (None, w2) \<Rightarrow>
               (case run_opt (stdlibArchives_findAndOpen e) (stdlib i) p w2 of
                  (Some rc, w3) \<Rightarrow> (Some rc, w3)
                | (None, w3) \<Rightarrow> run_opt (unmappedArchives_findAndOpen e) (unmapped i) p w3)))"
  unfolding build_finders_append find_append find_opt_finder ..

lemma build_finders_order:
  "build_finders e i =
     filter (\<lambda>f. f \<noteq> None)
       [map_option zipReader_findAndOpen (stdlibZip i),
        map_option (mappedArchives_findAndOpen e) (mapped i),
        map_option (stdlibArchives_findAndOpen e) (stdlib i),
        map_option (unmappedArchives_findAndOpen e) (unmapped i)]"
  by (simp add: build_finders_def Let_def split: option.splits)

lemma run_opt_None_iff: "fst (run_opt m a p w) = None \<longleftrightarrow> (\<forall>x. a = Some x \<longrightarrow> fst (m x p w) = None)"
  by (cases a) (simp_all add: run_opt_def)


lemma chain_zip_wins:
  "stdlibZip i = Some z \<Longrightarrow> zipReader_findAndOpen z p w = (Some rc, w1) \<Longrightarrow>
   find (build_finders e i) p w = (Some rc, w1)"
  by (simp add: find_chain run_opt_def)

lemma chain_mapped_wins:
  assumes "\<forall>z. stdlibZip i = Some z \<longrightarrow> zipReader_findAndOpen z p w = (None, w0)"
    and "stdlibZip i = None \<longrightarrow> w0 = w"
    and "mapped i = Some m" and "mappedArchives_findAndOpen e m p w0 = (Some rc, w1)"
  shows "find (build_finders e i) p w = (Some rc, w1)"
proof -
  have "run_opt zipReader_findAndOpen (stdlibZip i) p w = (None, w0)"
    using assms(1,2) by (cases "stdlibZip i") (simp_all add: run_opt_def)
  then show ?thesis using assms(3,4) by (simp add: find_chain run_opt_def)
qed


subsection \<open>The cache and the constructors\<close>

lemma Import_hit: "i_imports i p = Some pkg \<Longrightarrow> Complete pkg \<Longrightarrow> Import e i p w = (Inr pkg, i, w)"
  by (simp add: Import_def)

lemma Import_miss:
  "\<not> cache_hit i p \<Longrightarrow>
   Import e i p w =
     (case find (build_finders e i) p w of
        (None, w') \<Rightarrow> (Inl (PackageNotFound p), i, w')
      | (Some file, w') \<Rightarrow> decode_file e i p file w')"
  by (auto simp add: Import_def cache_hit_def split: option.splits)

lemma Import_uses:
  "\<not> cache_hit i p \<Longrightarrow> find (build_finders e i) p w = (Some rc, w1) \<Longrightarrow>
   Import e i p w = decode_file e i p rc w1"
  by (simp add: Import_miss)

lemma New_imports: "i_imports (New ctxt ua ma sa z) = [''unsafe'' \<mapsto> Unsafe]"
  by (simp add: New_def Let_def split: option.splits)

lemma NewFromZips_imports:
  "NewFromZips e ctxt us ms ss zs w = (Inr i, w') \<Longrightarrow> i_imports i = [''unsafe'' \<mapsto> Unsafe]"
  by (auto simp add: NewFromZips_def New_imports Let_def split: prod.splits sum.splits)

lemma Complete_Unsafe: "Complete Unsafe"
  by (simp add: Complete_def Unsafe_def)

lemma build_finders_New_None: "build_finders e (New ctxt None None None None) = []"
  by (simp add: build_finders_def New_def)

lemma length_split_from: "length (split_from sep acc s) = Suc (count_list s sep)"
  by (induction s arbitrary: acc) simp_all

lemma length_Split: "length (Split s sep) = Suc (count_list s sep)"
  by (simp add: Split_def length_split_from)

lemma wellformed_iff: "length (Split a (CHR '':'')) = 2 \<longleftrightarrow> count_list a (CHR '':'') = 1"
  by (simp add: length_Split)

lemma fill_mapped_ok:
  "\<forall>a\<in>set ms. count_list a (CHR '':'') = 1 \<Longrightarrow> \<exists>pkgs'. fill_mapped ms pkgs = Inr pkgs'"
  by (induction ms arbitrary: pkgs) (simp_all add: Let_def length_Split)

lemma fill_mapped_bad:
  "\<forall>b\<in>set pre. count_list b (CHR '':'') = 1 \<Longrightarrow> count_list a (CHR '':'') \<noteq> 1 \<Longrightarrow>
   fill_mapped (pre @ a # post) pkgs = Inl (ArchiveNotPair (Split a (CHR '':'')))"
  by (induction pre arbitrary: pkgs) (simp_all add: Let_def length_Split)

lemma fill_mapped_some_bad:
  assumes "\<exists>a\<in>set ms. count_list a (CHR '':'') \<noteq> 1"
  shows "\<exists>err. fill_mapped ms pkgs = Inl err"
proof -
  from assms obtain pre a post where "ms = pre @ a # post"
    and "count_list a (CHR '':'') \<noteq> 1" and "\<forall>b\<in>set pre. \<not> count_list b (CHR '':'') \<noteq> 1"
    by (auto dest!: split_list_first_prop)
  then show ?thesis using fill_mapped_bad [of pre a post pkgs] by auto
qed

lemma fill_mapped_Inl:
  "fill_mapped ms pkgs = Inl err \<Longrightarrow>
   \<exists>a\<in>set ms. length (Split a (CHR '':'')) \<noteq> 2 \<and> err = ArchiveNotPair (Split a (CHR '':''))"
  by (induction ms arbitrary: pkgs) (auto simp add: Let_def split: if_splits)

lemma select_stdlib_zip_Inl:
  "select_stdlib_zip e pat zs w = (Inl err, w') \<Longrightarrow> \<exists>d\<in>set zs. zip_OpenReader e d = Inl err"
  by (induction zs arbitrary: w)
    (auto simp add: do_zip_OpenReader_def split: sum.splits if_splits prod.splits)

lemma NewFromZips_cases:
  "fst (NewFromZips e ctxt us ms ss zs w) =
     (case fst (select_stdlib_zip e (wantPattern_of ctxt) zs w) of
        Inl err \<Rightarrow> Inl err
      | Inr r \<Rightarrow>
          (case fill_mapped ms Map.empty of
             Inl err \<Rightarrow> Inl err
           | Inr pkgs \<Rightarrow>
               Inr (New ctxt (Some \<lparr>ua_archs = us\<rparr>) (Some \<lparr>ma_pkgs = pkgs\<rparr>)
                      (Some \<lparr>sa_ctxt = ctxt, sa_archs = ss\<rparr>) r)))"
  by (simp add: NewFromZips_def wantPattern_of_def Let_def split: prod.splits sum.splits)

lemma NewFromZips_Inl:
  assumes "fst (NewFromZips e ctxt us ms ss zs w) = Inl err"
  shows "(\<exists>d\<in>set zs. zip_OpenReader e d = Inl err) \<or>
         (\<exists>a\<in>set ms. length (Split a (CHR '':'')) \<noteq> 2 \<and> err = ArchiveNotPair (Split a (CHR '':'')))"
proof (cases "select_stdlib_zip e (wantPattern_of ctxt) zs w")
  case (Pair r w')
  show ?thesis
  proof (cases r)
    case (Inl err')
    with Pair assms have "err' = err" by (simp add: NewFromZips_cases)
    with Pair Inl show ?thesis using select_stdlib_zip_Inl by blast
  next
    case (Inr x)
    with Pair assms have "fill_mapped ms Map.empty = Inl err"
      by (simp add: NewFromZips_cases split: sum.splits)
    then show ?thesis using fill_mapped_Inl by blast
  qed
qed

subsection \<open>Descriptors\<close>

lemma quiet_refl: "quiet w w"
  by (simp add: quiet_def no_close_def)

lemma quiet_trans: "quiet w w1 \<Longrightarrow> quiet w1 w2 \<Longrightarrow> quiet w w2"
  by (auto simp add: quiet_def no_close_def)

lemma quiet_opened: "quiet w w1 \<Longrightarrow> opened w1 s w2 \<Longrightarrow> opened w s w2"
  by (auto simp add: quiet_def opened_def no_close_def)

lemma quiet_outcome: "quiet w w1 \<Longrightarrow> outcome w1 rw \<Longrightarrow> outcome w rw"
  by (auto simp add: outcome_def split: option.splits intro: quiet_trans quiet_opened)

lemma outcome_None: "outcome w (None, w') = quiet w w'"
  by (simp add: outcome_def)

lemma outcome_Some: "outcome w (Some s, w') = opened w s w'"
  by (simp add: outcome_def)

lemma do_Stat_quiet: "do_Stat e n w = (r, w') \<Longrightarrow> quiet w w'"
  by (auto simp add: do_Stat_def quiet_def no_close_def)

lemma do_Open_Inl: "do_Open e n w = (Inl err, w') \<Longrightarrow> quiet w w'"
  by (auto simp add: do_Open_def quiet_def no_close_def split: sum.splits)

lemma do_Open_Inr: "do_Open e n w = (Inr s, w') \<Longrightarrow> opened w s w'"
  by (auto simp add: do_Open_def opened_def no_close_def split: sum.splits)

lemma do_zip_File_Open_Inl: "do_zip_File_Open f w = (Inl err, w') \<Longrightarrow> quiet w w'"
  by (auto simp add: do_zip_File_Open_def quiet_def no_close_def split: sum.splits)

lemma do_zip_File_Open_Inr: "do_zip_File_Open f w = (Inr s, w') \<Longrightarrow> opened w s w'"
  by (auto simp add: do_zip_File_Open_def opened_def no_close_def split: sum.splits)

lemma zipReader_outcome: "outcome w (zipReader_findAndOpen z p w)"
  by (auto simp add: zipReader_findAndOpen_def Let_def outcome_None outcome_Some quiet_refl
      split: option.splits prod.splits sum.splits
      dest: do_zip_File_Open_Inl do_zip_File_Open_Inr)

lemma mappedArchives_outcome: "outcome w (mappedArchives_findAndOpen e a p w)"
  by (auto simp add: mappedArchives_findAndOpen_def outcome_None outcome_Some quiet_refl
      split: option.splits prod.splits sum.splits
      dest: do_Open_Inl do_Open_Inr)

lemma unmapped_range_outcome: "outcome w (unmapped_range e name archs w)"
proof (induction archs arbitrary: w)
  case Nil
  then show ?case by (simp add: outcome_None quiet_refl)
next
  case (Cons filename rest)
  show ?case
  proof (cases "HasSuffix filename name")
    case False
    then show ?thesis using Cons.IH by simp
  next
    case True
    obtain r w1 where o: "do_Open e filename w = (r, w1)" by (cases "do_Open e filename w")
    show ?thesis
    proof (cases r)
      case (Inl err)
      with o have "quiet w w1" by (simp add: do_Open_Inl)
      then have "outcome w (unmapped_range e name rest w1)"
        using Cons.IH by (rule quiet_outcome)
      then show ?thesis using True o Inl by simp
    next
      case (Inr ar)
      with o have "opened w ar w1" by (simp add: do_Open_Inr)
      then show ?thesis using True o Inr by (simp add: outcome_Some)
    qed
  qed
qed

lemma unmappedArchives_outcome: "outcome w (unmappedArchives_findAndOpen e a p w)"
  by (simp add: unmappedArchives_findAndOpen_def Let_def unmapped_range_outcome)

lemma stdlib_range_outcome: "outcome w (stdlib_range e name archs w)"
proof (induction archs arbitrary: w)
  case Nil
  then show ?case by (simp add: outcome_None quiet_refl)
next
  case (Cons filename rest)
  obtain st w1 where st: "do_Stat e filename w = (st, w1)" by (cases "do_Stat e filename w")
  then have q1: "quiet w w1" by (rule do_Stat_quiet)
  obtain r w2 where o: "do_Open e (filepath_Join e filename name) w1 = (r, w2)"
    by (cases "do_Open e (filepath_Join e filename name) w1")
  obtain r' w3 where o': "do_Open e filename w1 = (r', w3)" by (cases "do_Open e filename w1")
  obtain r'' w4 where o'': "do_Open e filename w2 = (r'', w4)" by (cases "do_Open e filename w2")
  show ?case
  proof (cases "st = Inr True")
    case dir: True
    show ?thesis
    proof (cases r)
      case (Inr f)
      with o have "opened w1 f w2" by (simp add: do_Open_Inr)
      with q1 have "opened w f w2" by (rule quiet_opened)
      then show ?thesis using st dir o Inr by (simp add: outcome_Some)
    next
      case (Inl err)
      with o have "quiet w1 w2" by (simp add: do_Open_Inl)
      with q1 have q2: "quiet w w2" by (rule quiet_trans)
      show ?thesis
      proof (cases "HasSuffix filename name")
        case False
        have "outcome w (stdlib_range e name rest w2)" using q2 Cons.IH by (rule quiet_outcome)
        then show ?thesis using st dir o Inl False by simp
      next
        case True
        show ?thesis
        proof (cases r'')
          case (Inr ar)
          with o'' have "opened w2 ar w4" by (simp add: do_Open_Inr)
          with q2 have "opened w ar w4" by (rule quiet_opened)
          then show ?thesis using st dir o Inl True o'' Inr by (simp add: outcome_Some)
        next
          case inl: (Inl err')
          with o'' have "quiet w2 w4" by (simp add: do_Open_Inl)
          with q2 have "quiet w w4" by (rule quiet_trans)
          then have "outcome w (stdlib_range e name rest w4)" using Cons.IH by (rule quiet_outcome)
          then show ?thesis using st dir o Inl True o'' inl by simp
        qed
      qed
    qed
  next
    case nodir: False
    show ?thesis
    proof (cases "HasSuffix filename name")
      case False
      have "outcome w (stdlib_range e name rest w1)" using q1 Cons.IH by (rule quiet_outcome)
      then show ?thesis using st nodir False by simp
    next
      case True
      show ?thesis
      proof (cases r')
        case (Inr ar)
        with o' have "opened w1 ar w3" by (simp add: do_Open_Inr)
        with q1 have "opened w ar w3" by (rule quiet_opened)
        then show ?thesis using st nodir True o' Inr by (simp add: outcome_Some)
      next
        case (Inl err')
        with o' have "quiet w1 w3" by (simp add: do_Open_Inl)
        with q1 have "quiet w w3" by (rule quiet_trans)
        then have "outcome w (stdlib_range e name rest w3)" using Cons.IH by (rule quiet_outcome)
        then show ?thesis using st nodir True o' Inl by simp
      qed
    qed
  qed
qed

lemma stdlibArchives_outcome: "outcome w (stdlibArchives_findAndOpen e a p w)"
  by (simp add: stdlibArchives_findAndOpen_def Let_def stdlib_range_outcome)

lemma find_outcome:
  "(\<forall>f\<in>set finders. \<forall>g. f = Some g \<longrightarrow> (\<forall>w. outcome w (g p w))) \<Longrightarrow> outcome w (find finders p w)"
proof (induction finders arbitrary: w)
  case Nil
  then show ?case by (simp add: outcome_None quiet_refl)
next
  case (Cons fo finders)
  show ?case
  proof (cases fo)
    case None
    then show ?thesis using Cons by simp
  next
    case (Some g)
    obtain r w1 where g: "g p w = (r, w1)" by (cases "g p w")
    have og: "outcome w (g p w)" using Cons.prems Some by simp
    show ?thesis
    proof (cases r)
      case None
      with og g have "quiet w w1" by (simp add: outcome_None)
      moreover have "outcome w1 (find finders p w1)" using Cons by simp
      ultimately have "outcome w (find finders p w1)" by (rule quiet_outcome)
      then show ?thesis using Some g None by simp
    next
      case (Some s)
      then show ?thesis using og g \<open>fo = Some g\<close> by simp
    qed
  qed
qed

lemma build_finders_outcome: "outcome w (find (build_finders e i) p w)"
  by (rule find_outcome)
    (auto simp add: build_finders_def Let_def zipReader_outcome mappedArchives_outcome
      stdlibArchives_outcome unmappedArchives_outcome split: option.splits)

lemma decode_file_world: "snd (snd (decode_file e i p rc w)) = do_Close rc w"
  by (simp add: decode_file_def split: sum.splits prod.splits)

subsection \<open>Hits, misses and failed opens of the four finders\<close>

lemma unmapped_range_miss:
  "\<forall>f\<in>set archs. \<not> HasSuffix f name \<Longrightarrow> unmapped_range e name archs w = (None, w)"
  by (induction archs arbitrary: w) simp_all

lemma stdlib_range_miss:
  "\<forall>f\<in>set archs. \<not> HasSuffix f name \<and>
      (os_Stat e f = Inr True \<longrightarrow> (\<forall>d. os_Open e (filepath_Join e f name) \<noteq> Inr d)) \<Longrightarrow>
   fst (stdlib_range e name archs w) = None"
proof (induction archs arbitrary: w)
  case Nil
  then show ?case by simp
next
  case (Cons f rest)
  then have ih: "\<And>w. fst (stdlib_range e name rest w) = None" by simp
  from Cons.prems have ns: "\<not> HasSuffix f name"
    and d: "os_Stat e f = Inr True \<longrightarrow> (\<forall>d. os_Open e (filepath_Join e f name) \<noteq> Inr d)" by simp_all
  show ?case
  proof (cases "os_Stat e f = Inr True")
    case True
    with d obtain err where "os_Open e (filepath_Join e f name) = Inl err"
      by (cases "os_Open e (filepath_Join e f name)") auto
    then show ?thesis using True ns ih by (simp add: do_Stat_def do_Open_def)
  next
    case False
    then show ?thesis using ns ih by (simp add: do_Stat_def)
  qed
qed

lemma zip_hit:
  "z_files z (goEnvDir (z_ctxt z) @ ''/'' @ TrimPrefix p ''google3/'' @ ''.x'') = Some f \<Longrightarrow>
   zf_Open f = Inr d \<Longrightarrow>
   \<exists>rc w1. zipReader_findAndOpen z p w = (Some rc, w1) \<and>
            s_origin rc = ZipMember (zf_Name f) \<and> s_data rc = d"
  by (simp add: zipReader_findAndOpen_def Let_def do_zip_File_Open_def)

lemma mapped_hit:
  "ma_pkgs m p = Some fn \<Longrightarrow> os_Open e fn = Inr d \<Longrightarrow>
   \<exists>rc w1. mappedArchives_findAndOpen e m p w = (Some rc, w1) \<and>
            s_origin rc = OsFile fn \<and> s_data rc = d"
  by (simp add: mappedArchives_findAndOpen_def do_Open_def)























subsection \<open>Evaluation\<close>

lemmas demo_defs =
  env_demo_def ctxt_linux_def demo_files_def demo_bundle_def
  imp_full_def world0_def New_def newZipReader_def NewFileSet_def Unsafe_def Complete_def
  cache_hit_def goEnvDir_def HasSuffix_def HasPrefix_def TrimPrefix_def Split_def
  build_finders_def zipReader_findAndOpen_def mappedArchives_findAndOpen_def
  stdlibArchives_findAndOpen_def unmappedArchives_findAndOpen_def
  do_Stat_def do_Open_def do_zip_File_Open_def do_zip_OpenReader_def do_Close_def
  decode_file_def Import_def NewFromZips_def Let_def



section \<open>The claims\<close>

subsection \<open>C1: exact-match strategies before suffix-match strategies\<close>

text \<open>
  C1, as stated, fails. The importer built from the mapped pair \<open>errors:gone.a\<close> and the
  unmapped archive \<open>vendor/pkg/errors.x\<close> has the path \<open>errors\<close> in its exact-match store
  and in a suffix-match store; \<open>gone.a\<close> cannot be opened, the mapped finder answers
  \<open>nil\<close>, and \<open>Import\<close> decodes the stream of the suffix-match store.
\<close>

theorem exact_entry_unopened_counterexample:
  "fst (NewFromZips env_demo ctxt_linux [''vendor/pkg/errors.x''] [''errors:gone.a''] [] [] world0)
     = Inr imp_exact \<and>
   \<not> cache_hit imp_exact ''errors'' \<and>
   map_option ma_pkgs (mapped imp_exact) = Some [''errors'' \<mapsto> ''gone.a''] \<and>
   map_option ua_archs (unmapped imp_exact) = Some [''vendor/pkg/errors.x''] \<and>
   HasSuffix ''vendor/pkg/errors.x'' (''/'' @ TrimPrefix ''errors'' ''google3/'' @ ''.x'') \<and>
   fst (find (build_finders env_demo imp_exact) ''errors'' world0)
     = Some \<lparr>s_fd = 0, s_origin = OsFile ''vendor/pkg/errors.x'', s_data = ''VENDOR''\<rparr> \<and>
   fst (Import env_demo imp_exact ''errors'' world0)
     = Inr \<lparr>pkg_path = ''errors'', pkg_name = ''VENDOR'', complete = True\<rparr>"
  by (simp add: demo_defs imp_exact_def)

text \<open>
  C1, amended. The chain \<open>Import\<close> builds is the bundle finder, the mapped-archive finder,
  the stdlib finder and the unmapped finder, in this order, less those that are \<open>nil\<close>.
  With no complete cache entry for the path: if the bundle has the member for the path and
  the member opens, \<open>Import\<close> decodes that stream, whatever the three other strategies are;
  if the bundle gives no stream and the mapped archives map the path to a file that opens,
  \<open>Import\<close> decodes that file, whatever the two suffix-match strategies are.
\<close>

theorem exact_match_strategies_first:
  "build_finders e i =
     filter (\<lambda>f. f \<noteq> None)
       [map_option zipReader_findAndOpen (stdlibZip i),
        map_option (mappedArchives_findAndOpen e) (mapped i),
        map_option (stdlibArchives_findAndOpen e) (stdlib i),
        map_option (unmappedArchives_findAndOpen e) (unmapped i)] \<and>
   (\<not> cache_hit i p \<and> stdlibZip i = Some z \<and>
    z_files z (goEnvDir (z_ctxt z) @ ''/'' @ TrimPrefix p ''google3/'' @ ''.x'') = Some zf \<and>
    zf_Open zf = Inr d \<longrightarrow>
      (\<exists>rc w1. s_origin rc = ZipMember (zf_Name zf) \<and> s_data rc = d \<and>
         Import e i p w = decode_file e i p rc w1 \<and>
         (\<forall>m' sa' ua'.
            find (build_finders e (i\<lparr>mapped := m', stdlib := sa', unmapped := ua'\<rparr>)) p w
              = (Some rc, w1)))) \<and>
   (\<not> cache_hit i p \<and>
    (\<forall>z. stdlibZip i = Some z \<longrightarrow> fst (zipReader_findAndOpen z p w) = None) \<and>
    mapped i = Some m \<and> ma_pkgs m p = Some fn \<and> os_Open e fn = Inr d \<longrightarrow>
      (\<exists>rc w1. s_origin rc = OsFile fn \<and> s_data rc = d \<and>
         Import e i p w = decode_file e i p rc w1 \<and>
         (\<forall>sa' ua'.
            find (build_finders e (i\<lparr>stdlib := sa', unmapped := ua'\<rparr>)) p w = (Some rc, w1))))"
proof (intro conjI impI)
  show "build_finders e i =
     filter (\<lambda>f. f \<noteq> None)
       [map_option zipReader_findAndOpen (stdlibZip i),
        map_option (mappedArchives_findAndOpen e) (mapped i),
        map_option (stdlibArchives_findAndOpen e) (stdlib i),
        map_option (unmappedArchives_findAndOpen e) (unmapped i)]"
    by (rule build_finders_order)
next
  assume a: "\<not> cache_hit i p \<and> stdlibZip i = Some z \<and>
    z_files z (goEnvDir (z_ctxt z) @ ''/'' @ TrimPrefix p ''google3/'' @ ''.x'') = Some zf \<and>
    zf_Open zf = Inr d"
  then obtain rc w1 where z: "zipReader_findAndOpen z p w = (Some rc, w1)"
    and o: "s_origin rc = ZipMember (zf_Name zf)" "s_data rc = d"
    using zip_hit [of z p zf d w] by blast
  have all: "\<forall>m' sa' ua'.
      find (build_finders e (i\<lparr>mapped := m', stdlib := sa', unmapped := ua'\<rparr>)) p w = (Some rc, w1)"
    using a z by (simp add: chain_zip_wins)
  have "find (build_finders e i) p w = (Some rc, w1)" using a z by (simp add: chain_zip_wins)
  then have "Import e i p w = decode_file e i p rc w1" using a by (simp add: Import_uses)
  with o all show "\<exists>rc w1. s_origin rc = ZipMember (zf_Name zf) \<and> s_data rc = d \<and>
         Import e i p w = decode_file e i p rc w1 \<and>
         (\<forall>m' sa' ua'.
            find (build_finders e (i\<lparr>mapped := m', stdlib := sa', unmapped := ua'\<rparr>)) p w
              = (Some rc, w1))" by blast
next
  assume a: "\<not> cache_hit i p \<and>
    (\<forall>z. stdlibZip i = Some z \<longrightarrow> fst (zipReader_findAndOpen z p w) = None) \<and>
    mapped i = Some m \<and> ma_pkgs m p = Some fn \<and> os_Open e fn = Inr d"
  then have "fst (run_opt zipReader_findAndOpen (stdlibZip i) p w) = None"
    by (simp add: run_opt_None_iff)
  then obtain w0 where w0: "run_opt zipReader_findAndOpen (stdlibZip i) p w = (None, w0)"
    by (cases "run_opt zipReader_findAndOpen (stdlibZip i) p w") simp
  from a obtain rc w1 where m: "mappedArchives_findAndOpen e m p w0 = (Some rc, w1)"
    and o: "s_origin rc = OsFile fn" "s_data rc = d"
    using mapped_hit [of m p fn e d w0] by blast
  have all: "\<forall>sa' ua'.
      find (build_finders e (i\<lparr>stdlib := sa', unmapped := ua'\<rparr>)) p w = (Some rc, w1)"
    using a w0 m by (simp add: find_chain run_opt_def)
  have "find (build_finders e i) p w = (Some rc, w1)"
    using a w0 m by (simp add: find_chain run_opt_def)
  then have "Import e i p w = decode_file e i p rc w1" using a by (simp add: Import_uses)
  with o all show "\<exists>rc w1. s_origin rc = OsFile fn \<and> s_data rc = d \<and>
         Import e i p w = decode_file e i p rc w1 \<and>
         (\<forall>sa' ua'.
            find (build_finders e (i\<lparr>stdlib := sa', unmapped := ua'\<rparr>)) p w = (Some rc, w1))"
    by blast
qed

theorem exact_match_strategies_first_witness:
  "(\<not> cache_hit imp_full ''fmt'' \<and>
    stdlibZip imp_full = Some (newZipReader demo_bundle ctxt_linux) \<and>
    z_files (newZipReader demo_bundle ctxt_linux)
      (goEnvDir (z_ctxt (newZipReader demo_bundle ctxt_linux)) @ ''/'' @
       TrimPrefix ''fmt'' ''google3/'' @ ''.x'')
      = Some \<lparr>zf_Name = ''linux_amd64/fmt.x'', zf_Open = Inr ''ZFMT''\<rparr>) \<and>
   (\<exists>rc w1. s_origin rc = ZipMember ''linux_amd64/fmt.x'' \<and> s_data rc = ''ZFMT'' \<and>
      Import env_demo imp_full ''fmt'' world0 = decode_file env_demo imp_full ''fmt'' rc w1) \<and>
   (\<not> cache_hit imp_full ''yaml'' \<and>
    fst (zipReader_findAndOpen (newZipReader demo_bundle ctxt_linux) ''yaml'' world0) = None \<and>
    map_option ma_pkgs (mapped imp_full) = Some [''yaml'' \<mapsto> ''ext/yaml.a'', ''net'' \<mapsto> ''gone.a''] \<and>
    os_Open env_demo ''ext/yaml.a'' = Inr ''YAML'' \<and>
    HasSuffix ''third_party/yaml.x'' (''/'' @ TrimPrefix ''yaml'' ''google3/'' @ ''.x'')) \<and>
   (\<exists>rc w1. s_origin rc = OsFile ''ext/yaml.a'' \<and> s_data rc = ''YAML'' \<and>
      Import env_demo imp_full ''yaml'' world0 = decode_file env_demo imp_full ''yaml'' rc w1)"
proof -
  let ?z = "newZipReader demo_bundle ctxt_linux"
  let ?zf = "\<lparr>zf_Name = ''linux_amd64/fmt.x'', zf_Open = Inr ''ZFMT''\<rparr>"
  let ?m = "\<lparr>ma_pkgs = [''yaml'' \<mapsto> ''ext/yaml.a'', ''net'' \<mapsto> ''gone.a'']\<rparr>"
  have a: "\<not> cache_hit imp_full ''fmt'' \<and> stdlibZip imp_full = Some ?z \<and>
    z_files ?z (goEnvDir (z_ctxt ?z) @ ''/'' @ TrimPrefix ''fmt'' ''google3/'' @ ''.x'') = Some ?zf"
    by (simp add: demo_defs)
  have b: "\<not> cache_hit imp_full ''yaml'' \<and>
    fst (zipReader_findAndOpen ?z ''yaml'' world0) = None \<and>
    map_option ma_pkgs (mapped imp_full) = Some [''yaml'' \<mapsto> ''ext/yaml.a'', ''net'' \<mapsto> ''gone.a''] \<and>
    os_Open env_demo ''ext/yaml.a'' = Inr ''YAML'' \<and>
    HasSuffix ''third_party/yaml.x'' (''/'' @ TrimPrefix ''yaml'' ''google3/'' @ ''.x'')"
    by (simp add: demo_defs)
  have m: "mapped imp_full = Some ?m" "ma_pkgs ?m ''yaml'' = Some ''ext/yaml.a''"
    by (simp_all add: demo_defs)
  note t1 = exact_match_strategies_first [where e = env_demo and i = imp_full and p = "''fmt''"
      and z = ?z and zf = ?zf and d = "''ZFMT''" and w = world0]
  note t2 = exact_match_strategies_first [where e = env_demo and i = imp_full and p = "''yaml''"
      and m = ?m and fn = "''ext/yaml.a''" and d = "''YAML''" and w = world0]
  from t1 a have 1: "\<exists>rc w1. s_origin rc = ZipMember ''linux_amd64/fmt.x'' \<and> s_data rc = ''ZFMT'' \<and>
      Import env_demo imp_full ''fmt'' world0 = decode_file env_demo imp_full ''fmt'' rc w1"
    by simp blast
  from t2 a b m have 2: "\<exists>rc w1. s_origin rc = OsFile ''ext/yaml.a'' \<and> s_data rc = ''YAML'' \<and>
      Import env_demo imp_full ''yaml'' world0 = decode_file env_demo imp_full ''yaml'' rc w1"
    by simp blast
  from a 1 b 2 show ?thesis by blast
qed

subsection \<open>C2: the cache\<close>




subsection \<open>C3: not found\<close>

text \<open>
  C3. With no complete cache entry for the path, when the chain gives no stream \<open>Import\<close>
  returns the error \<open>PackageNotFound\<close> with the path and no package. This is so for every
  path but \<open>unsafe\<close> on an importer with no strategy at all, and on the importer that
  \<open>NewFromZips\<close> builds from empty lists.
\<close>

theorem Import_not_found:
  "(\<not> cache_hit i p \<and> find (build_finders e i) p w = (None, w') \<longrightarrow>
      Import e i p w = (Inl (PackageNotFound p), i, w')) \<and>
   (p \<noteq> ''unsafe'' \<longrightarrow>
      Import e (New ctxt None None None None) p w =
        (Inl (PackageNotFound p), New ctxt None None None None, w)) \<and>
   (p \<noteq> ''unsafe'' \<longrightarrow>
      (\<exists>i. NewFromZips e ctxt [] [] [] [] w0 = (Inr i, w0) \<and>
           Import e i p w = (Inl (PackageNotFound p), i, w)))"
proof (intro conjI impI)
  assume "\<not> cache_hit i p \<and> find (build_finders e i) p w = (None, w')"
  then show "Import e i p w = (Inl (PackageNotFound p), i, w')"
    by (simp add: Import_miss)
next
  assume "p \<noteq> ''unsafe''"
  then have "\<not> cache_hit (New ctxt None None None None) p"
    by (simp add: cache_hit_def New_imports)
  then show "Import e (New ctxt None None None None) p w =
        (Inl (PackageNotFound p), New ctxt None None None None, w)"
    by (simp add: Import_miss build_finders_New_None)
next
  assume p: "p \<noteq> ''unsafe''"
  let ?i = "New ctxt (Some \<lparr>ua_archs = []\<rparr>) (Some \<lparr>ma_pkgs = Map.empty\<rparr>)
              (Some \<lparr>sa_ctxt = ctxt, sa_archs = []\<rparr>) None"
  have n: "NewFromZips e ctxt [] [] [] [] w0 = (Inr ?i, w0)"
    by (simp add: NewFromZips_def)
  have "\<not> cache_hit ?i p" using p by (simp add: cache_hit_def New_imports)
  moreover have "find (build_finders e ?i) p w = (None, w)"
    by (simp add: build_finders_def New_def mappedArchives_findAndOpen_def
        stdlibArchives_findAndOpen_def unmappedArchives_findAndOpen_def)
  ultimately have "Import e ?i p w = (Inl (PackageNotFound p), ?i, w)"
    by (simp add: Import_miss)
  with n show "\<exists>i. NewFromZips e ctxt [] [] [] [] w0 = (Inr i, w0) \<and>
           Import e i p w = (Inl (PackageNotFound p), i, w)" by blast
qed

theorem Import_not_found_witness:
  "\<not> cache_hit imp_full ''missing'' \<and>
   fst (find (build_finders env_demo imp_full) ''missing'' world0) = None \<and>
   fst (Import env_demo imp_full ''missing'' world0) = Inl (PackageNotFound ''missing'') \<and>
   ''fmt'' \<noteq> ''unsafe'' \<and>
   fst (Import env_demo (New ctxt_linux None None None None) ''fmt'' world0)
     = Inl (PackageNotFound ''fmt'')"
proof -
  let ?f = "find (build_finders env_demo imp_full) ''missing'' world0"
  have a: "\<not> cache_hit imp_full ''missing''" by (simp add: demo_defs)
  have b: "fst ?f = None" by (simp add: demo_defs)
  then have b': "?f = (None, snd ?f)" by (simp add: prod_eq_iff)
  note t1 = Import_not_found [where i = imp_full and p = "''missing''" and e = env_demo
      and w = world0 and w' = "snd ?f"]
  note t2 = Import_not_found [where p = "''fmt''" and e = env_demo and w = world0
      and ctxt = ctxt_linux]
  from t1 a b' have 1: "fst (Import env_demo imp_full ''missing'' world0)
      = Inl (PackageNotFound ''missing'')" by simp
  have c: "''fmt'' \<noteq> ''unsafe''" by simp
  with t2 have 2: "fst (Import env_demo (New ctxt_linux None None None None) ''fmt'' world0)
     = Inl (PackageNotFound ''fmt'')" by simp
  from a b 1 c 2 show ?thesis by simp
qed

subsection \<open>C4: the package unsafe\<close>

text \<open>
  C4. Every importer that \<open>New\<close> or \<open>NewFromZips\<close> returns has \<open>types.Unsafe\<close> in its
  cache under \<open>unsafe\<close>, the entry is complete, and \<open>Import\<close> of \<open>unsafe\<close> returns it and
  leaves the world as it was, also when all four strategies are \<open>nil\<close>.
\<close>

theorem unsafe_preseeded:
  "i_imports (New ctxt ua ma sa z) ''unsafe'' = Some Unsafe \<and> Complete Unsafe \<and>
   Import e (New ctxt ua ma sa z) ''unsafe'' w = (Inr Unsafe, New ctxt ua ma sa z, w) \<and>
   Import e (New ctxt None None None None) ''unsafe'' w = (Inr Unsafe, New ctxt None None None None, w) \<and>
   (\<forall>i w1. NewFromZips e ctxt us ms ss zs w0 = (Inr i, w1) \<longrightarrow>
      i_imports i ''unsafe'' = Some Unsafe \<and> Import e i ''unsafe'' w = (Inr Unsafe, i, w))"
  using Complete_Unsafe
  by (auto simp add: New_imports Import_hit dest!: NewFromZips_imports)

theorem unsafe_preseeded_witness:
  "NewFromZips env_demo ctxt_linux [] [] [] [] world0
     = (Inr (New ctxt_linux (Some \<lparr>ua_archs = []\<rparr>) (Some \<lparr>ma_pkgs = Map.empty\<rparr>)
               (Some \<lparr>sa_ctxt = ctxt_linux, sa_archs = []\<rparr>) None), world0) \<and>
   fst (Import env_demo
          (New ctxt_linux (Some \<lparr>ua_archs = []\<rparr>) (Some \<lparr>ma_pkgs = Map.empty\<rparr>)
             (Some \<lparr>sa_ctxt = ctxt_linux, sa_archs = []\<rparr>) None) ''unsafe'' world0) = Inr Unsafe"
proof -
  let ?i = "New ctxt_linux (Some \<lparr>ua_archs = []\<rparr>) (Some \<lparr>ma_pkgs = Map.empty\<rparr>)
               (Some \<lparr>sa_ctxt = ctxt_linux, sa_archs = []\<rparr>) None"
  have h: "NewFromZips env_demo ctxt_linux [] [] [] [] world0 = (Inr ?i, world0)"
    by (simp add: NewFromZips_def)
  from unsafe_preseeded [where e = env_demo and ctxt = ctxt_linux and us = "[]" and ms = "[]"
      and ss = "[]" and zs = "[]" and ?w0.0 = world0 and w = world0] h
  have "Import env_demo ?i ''unsafe'' world0 = (Inr Unsafe, ?i, world0)" by blast
  with h show ?thesis by simp
qed

subsection \<open>C5: malformed mapped-archive entries\<close>

text \<open>
  C5, as stated, fails: the bundle is selected and opened before the mapped entries are
  read. With a bundle whose base name matches the pattern and that cannot be opened,
  \<open>NewFromZips\<close> returns the error of \<open>zip.OpenReader\<close>: construction fails although
  every entry has one separator, and with a malformed entry the error does not name it.
\<close>

theorem wellformed_entries_bundle_counterexample:
  "count_list ''a:b'' (CHR '':'') = 1 \<and>
   fst (NewFromZips env_demo ctxt_linux [] [''a:b''] [] [''other/linux_amd64.x.zip''] world0)
     = Inl ErrNotExist \<and>
   count_list ''onlyonename'' (CHR '':'') \<noteq> 1 \<and>
   fst (NewFromZips env_demo ctxt_linux [] [''onlyonename''] [] [''other/linux_amd64.x.zip''] world0)
     = Inl ErrNotExist"
  by (simp add: demo_defs)

text \<open>
  C5, amended. An entry is well-formed when it has exactly one \<open>:\<close>, which is when
  \<open>strings.Split\<close> gives two pieces. If some entry is malformed, \<open>NewFromZips\<close> returns
  an error and no importer. If the selection of the bundle did not fail, the error is
  \<open>ArchiveNotPair\<close> with the pieces of the first malformed entry. If every entry is
  well-formed and the selection of the bundle did not fail, \<open>NewFromZips\<close> returns an
  importer.
\<close>

theorem NewFromZips_mapped_entries:
  "((\<exists>a\<in>set ms. count_list a (CHR '':'') \<noteq> 1) \<longrightarrow>
      (\<exists>err. fst (NewFromZips e ctxt us ms ss zs w) = Inl err)) \<and>
   (ms = pre @ a # post \<and> (\<forall>b\<in>set pre. count_list b (CHR '':'') = 1) \<and>
    count_list a (CHR '':'') \<noteq> 1 \<and>
    fst (select_stdlib_zip e (wantPattern_of ctxt) zs w) = Inr r \<longrightarrow>
      fst (NewFromZips e ctxt us ms ss zs w) = Inl (ArchiveNotPair (Split a (CHR '':'')))) \<and>
   ((\<forall>a\<in>set ms. count_list a (CHR '':'') = 1) \<and>
    fst (select_stdlib_zip e (wantPattern_of ctxt) zs w) = Inr r \<longrightarrow>
      (\<exists>i. fst (NewFromZips e ctxt us ms ss zs w) = Inr i))"
proof (intro conjI impI)
  assume "\<exists>a\<in>set ms. count_list a (CHR '':'') \<noteq> 1"
  then obtain err where "fill_mapped ms Map.empty = Inl err"
    using fill_mapped_some_bad by blast
  then show "\<exists>err. fst (NewFromZips e ctxt us ms ss zs w) = Inl err"
    by (simp add: NewFromZips_cases split: sum.splits)
next
  assume a: "ms = pre @ a # post \<and> (\<forall>b\<in>set pre. count_list b (CHR '':'') = 1) \<and>
    count_list a (CHR '':'') \<noteq> 1 \<and>
    fst (select_stdlib_zip e (wantPattern_of ctxt) zs w) = Inr r"
  then have "fill_mapped ms Map.empty = Inl (ArchiveNotPair (Split a (CHR '':'')))"
    by (simp add: fill_mapped_bad)
  with a show "fst (NewFromZips e ctxt us ms ss zs w) = Inl (ArchiveNotPair (Split a (CHR '':'')))"
    by (simp add: NewFromZips_cases)
next
  assume a: "(\<forall>a\<in>set ms. count_list a (CHR '':'') = 1) \<and>
    fst (select_stdlib_zip e (wantPattern_of ctxt) zs w) = Inr r"
  then obtain pkgs where "fill_mapped ms Map.empty = Inr pkgs"
    using fill_mapped_ok by blast
  with a show "\<exists>i. fst (NewFromZips e ctxt us ms ss zs w) = Inr i"
    by (simp add: NewFromZips_cases)
qed

theorem NewFromZips_mapped_entries_witness:
  "count_list ''onlyonename'' (CHR '':'') \<noteq> 1 \<and>
   count_list ''a:b'' (CHR '':'') = 1 \<and>
   fst (select_stdlib_zip env_demo (wantPattern_of ctxt_linux) [] world0) = Inr None \<and>
   fst (NewFromZips env_demo ctxt_linux [] ([''a:b''] @ ''onlyonename'' # [''c:d:e'']) [] [] world0)
     = Inl (ArchiveNotPair [''onlyonename'']) \<and>
   (\<exists>i. fst (NewFromZips env_demo ctxt_linux [] [''a:b''] [] [] world0) = Inr i)"
proof -
  have a: "count_list ''onlyonename'' (CHR '':'') \<noteq> 1" by simp
  have b: "count_list ''a:b'' (CHR '':'') = 1" by simp
  have c: "fst (select_stdlib_zip env_demo (wantPattern_of ctxt_linux) [] world0) = Inr None"
    by simp
  have s: "Split ''onlyonename'' (CHR '':'') = [''onlyonename'']" by (simp add: Split_def)
  note t1 = NewFromZips_mapped_entries [where e = env_demo and ctxt = ctxt_linux and us = "[]"
      and ms = "[''a:b''] @ ''onlyonename'' # [''c:d:e'']" and pre = "[''a:b'']"
      and a = "''onlyonename''" and post = "[''c:d:e'']" and ss = "[]" and zs = "[]"
      and w = world0 and r = None]
  note t2 = NewFromZips_mapped_entries [where e = env_demo and ctxt = ctxt_linux and us = "[]"
      and ms = "[''a:b'']" and ss = "[]" and zs = "[]" and w = world0 and r = None]
  from t1 a b c s
  have 1: "fst (NewFromZips env_demo ctxt_linux [] ([''a:b''] @ ''onlyonename'' # [''c:d:e'']) [] []
              world0) = Inl (ArchiveNotPair [''onlyonename''])"
    by simp
  from t2 b c have 2: "\<exists>i. fst (NewFromZips env_demo ctxt_linux [] [''a:b''] [] [] world0) = Inr i"
    by simp
  from a b c 1 2 show ?thesis by blast
qed

subsection \<open>C6: the standard library before the unmapped archives\<close>




subsection \<open>C7: the first match wins\<close>

text \<open>
  C7. Run \<open>find\<close> on any list of finders with every finder recording its call. The
  recording does not change the result. The calls recorded are an initial segment of the
  finders that are not \<open>nil\<close>, in list order, none left out. If \<open>find\<close> returns a stream,
  the last call recorded is the one that returned it and every call before returned \<open>nil\<close>:
  no finder is called after the first match. If \<open>find\<close> returns \<open>nil\<close>, every finder
  that is not \<open>nil\<close> was called and returned \<open>nil\<close>.
\<close>

theorem find_first_match_wins:
  assumes "find (recording_all 0 finders) pkg (w, []) = (r, (w', calls))"
  shows "find finders pkg w = (r, w') \<and>
         map fst calls = take (length calls) (configured 0 finders) \<and>
         (r = None \<longrightarrow>
            length calls = length (configured 0 finders) \<and> (\<forall>c\<in>set calls. snd c = None)) \<and>
         (\<forall>s. r = Some s \<longrightarrow>
            calls \<noteq> [] \<and> snd (last calls) = Some s \<and> (\<forall>c\<in>set (butlast calls). snd c = None))"
  using find_recording_gen [OF assms] by simp

theorem find_first_match_wins_witness:
  "find (recording_all 0 demo_finders) ''p'' (0, []) =
     (Some ''p.a'', (11, [(1, None), (2, Some ''p.a'')])) \<and>
   find demo_finders ''p'' 0 = (Some ''p.a'', 11) \<and>
   configured 0 demo_finders = [1, 2, 3]"
proof -
  have h: "find (recording_all 0 demo_finders) ''p'' (0, []) =
     (Some ''p.a'', (11, [(1, None), (2, Some ''p.a'')]))"
    by (simp add: demo_finders_def recording_all_def recording_def)
  have c: "configured 0 demo_finders = [1, 2, 3]"
    by (simp add: demo_finders_def configured_def)
  from find_first_match_wins [OF h] have "find demo_finders ''p'' 0 = (Some ''p.a'', 11)" by simp
  with h c show ?thesis by simp
qed

subsection \<open>C8: the stream is closed\<close>

text \<open>
  C8. When the chain returns a stream, \<open>Import\<close> ends in the world left by the chain with
  that stream closed, whatever \<open>gcexportdata.NewReader\<close> and \<open>gcexportdata.Read\<close> return:
  the descriptor was opened during the call, the call logs exactly one close, of that
  descriptor and as its last event, the descriptor is not open afterwards, and no other
  descriptor is left open. The witness takes the three exits: the reader cannot be built,
  the decoder fails, the decoder succeeds.
\<close>

theorem Import_closes_stream:
  assumes miss: "\<not> cache_hit i p"
    and found: "find (build_finders e i) p w = (Some rc, w1)"
  shows "snd (snd (Import e i p w)) = do_Close rc w1 \<and>
         next_fd w \<le> s_fd rc \<and>
         (\<exists>evs. log (snd (snd (Import e i p w))) = log w @ evs @ [EvClose (s_fd rc)] \<and>
                (\<forall>fd. EvClose fd \<notin> set evs)) \<and>
         s_fd rc \<notin> set (open_fds (snd (snd (Import e i p w)))) \<and>
         ((\<forall>fd\<in>set (open_fds w). fd < next_fd w) \<longrightarrow>
            open_fds (snd (snd (Import e i p w))) = open_fds w)"
proof -
  let ?w' = "snd (snd (Import e i p w))"
  have "Import e i p w = decode_file e i p rc w1"
    using miss found by (simp add: Import_miss)
  then have w': "?w' = do_Close rc w1"
    by (simp add: decode_file_world)
  have "outcome w (find (build_finders e i) p w)" by (rule build_finders_outcome)
  with found have op: "opened w rc w1" by (simp add: outcome_Some)
  then obtain evs where evs: "log w1 = log w @ evs" "no_close evs"
    and fd: "s_fd rc = next_fd w" and fds: "open_fds w1 = s_fd rc # open_fds w"
    by (auto simp add: opened_def)
  have "log ?w' = log w @ evs @ [EvClose (s_fd rc)]"
    using w' evs by (simp add: do_Close_def)
  moreover have "\<forall>fd. EvClose fd \<notin> set evs" using evs by (simp add: no_close_def)
  ultimately have "\<exists>evs. log ?w' = log w @ evs @ [EvClose (s_fd rc)] \<and> (\<forall>fd. EvClose fd \<notin> set evs)"
    by blast
  moreover have "next_fd w \<le> s_fd rc" using fd by simp
  moreover have "s_fd rc \<notin> set (open_fds ?w')" using w' by (simp add: do_Close_def)
  moreover have "(\<forall>fd\<in>set (open_fds w). fd < next_fd w) \<longrightarrow> open_fds ?w' = open_fds w"
    using w' fds fd by (auto simp add: do_Close_def)
  ultimately show ?thesis using w' by simp
qed

theorem Import_closes_stream_witness:
  "\<not> cache_hit imp_full ''os'' \<and>
   fst (find (build_finders env_demo imp_full) ''os'' world0)
     = Some \<lparr>s_fd = 0, s_origin = OsFile ''lib/linux_amd64/os.a'', s_data = ''''\<rparr> \<and>
   fst (Import env_demo imp_full ''os'' world0) = Inl (ErrFormat ''no export data'') \<and>
   (\<exists>evs. log (snd (snd (Import env_demo imp_full ''os'' world0))) = log world0 @ evs @ [EvClose 0] \<and>
          (\<forall>fd. EvClose fd \<notin> set evs)) \<and>
   open_fds (snd (snd (Import env_demo imp_full ''os'' world0))) = [] \<and>
   \<not> cache_hit imp_full ''io'' \<and>
   fst (find (build_finders env_demo imp_full) ''io'' world0)
     = Some \<lparr>s_fd = 0, s_origin = OsFile ''lib/linux_amd64/io.a'', s_data = ''!''\<rparr> \<and>
   fst (Import env_demo imp_full ''io'' world0) = Inl (ErrFormat ''bad export data'') \<and>
   (\<exists>evs. log (snd (snd (Import env_demo imp_full ''io'' world0))) = log world0 @ evs @ [EvClose 0] \<and>
          (\<forall>fd. EvClose fd \<notin> set evs)) \<and>
   open_fds (snd (snd (Import env_demo imp_full ''io'' world0))) = [] \<and>
   \<not> cache_hit imp_full ''fmt'' \<and>
   fst (find (build_finders env_demo imp_full) ''fmt'' world0)
     = Some \<lparr>s_fd = 0, s_origin = ZipMember ''linux_amd64/fmt.x'', s_data = ''ZFMT''\<rparr> \<and>
   fst (Import env_demo imp_full ''fmt'' world0)
     = Inr \<lparr>pkg_path = ''fmt'', pkg_name = ''ZFMT'', complete = True\<rparr> \<and>
   (\<exists>evs. log (snd (snd (Import env_demo imp_full ''fmt'' world0))) = log world0 @ evs @ [EvClose 0] \<and>
          (\<forall>fd. EvClose fd \<notin> set evs)) \<and>
   open_fds (snd (snd (Import env_demo imp_full ''fmt'' world0))) = []"
proof -
  let ?f1 = "find (build_finders env_demo imp_full) ''os'' world0"
  let ?f2 = "find (build_finders env_demo imp_full) ''io'' world0"
  let ?f3 = "find (build_finders env_demo imp_full) ''fmt'' world0"
  let ?rc1 = "\<lparr>s_fd = 0, s_origin = OsFile ''lib/linux_amd64/os.a'', s_data = ''''\<rparr>"
  let ?rc2 = "\<lparr>s_fd = 0, s_origin = OsFile ''lib/linux_amd64/io.a'', s_data = ''!''\<rparr>"
  let ?rc3 = "\<lparr>s_fd = 0, s_origin = ZipMember ''linux_amd64/fmt.x'', s_data = ''ZFMT''\<rparr>"
  have m: "\<not> cache_hit imp_full ''os''" "\<not> cache_hit imp_full ''io''" "\<not> cache_hit imp_full ''fmt''"
    by (simp_all add: demo_defs)
  have f1: "fst ?f1 = Some ?rc1" by (simp add: demo_defs)
  have f2: "fst ?f2 = Some ?rc2" by (simp add: demo_defs)
  have f3: "fst ?f3 = Some ?rc3" by (simp add: demo_defs)
  have f1': "?f1 = (Some ?rc1, snd ?f1)" using f1 by (simp add: prod_eq_iff)
  have f2': "?f2 = (Some ?rc2, snd ?f2)" using f2 by (simp add: prod_eq_iff)
  have f3': "?f3 = (Some ?rc3, snd ?f3)" using f3 by (simp add: prod_eq_iff)
  have r: "fst (Import env_demo imp_full ''os'' world0) = Inl (ErrFormat ''no export data'')"
    "fst (Import env_demo imp_full ''io'' world0) = Inl (ErrFormat ''bad export data'')"
    "fst (Import env_demo imp_full ''fmt'' world0)
       = Inr \<lparr>pkg_path = ''fmt'', pkg_name = ''ZFMT'', complete = True\<rparr>"
    by (simp_all add: demo_defs)
  have w0: "\<forall>fd\<in>set (open_fds world0). fd < next_fd world0" "open_fds world0 = []"
    by (simp_all add: world0_def)
  note t1 = Import_closes_stream [OF m(1) f1', THEN conjunct2]
  note t2 = Import_closes_stream [OF m(2) f2', THEN conjunct2]
  note t3 = Import_closes_stream [OF m(3) f3', THEN conjunct2]
  from t1 w0 have 1:
    "(\<exists>evs. log (snd (snd (Import env_demo imp_full ''os'' world0))) = log world0 @ evs @ [EvClose 0] \<and>
          (\<forall>fd. EvClose fd \<notin> set evs)) \<and>
     open_fds (snd (snd (Import env_demo imp_full ''os'' world0))) = []"
    by simp
  from t2 w0 have 2:
    "(\<exists>evs. log (snd (snd (Import env_demo imp_full ''io'' world0))) = log world0 @ evs @ [EvClose 0] \<and>
          (\<forall>fd. EvClose fd \<notin> set evs)) \<and>
     open_fds (snd (snd (Import env_demo imp_full ''io'' world0))) = []"
    by simp
  from t3 w0 have 3:
    "(\<exists>evs. log (snd (snd (Import env_demo imp_full ''fmt'' world0))) = log world0 @ evs @ [EvClose 0] \<and>
          (\<forall>fd. EvClose fd \<notin> set evs)) \<and>
     open_fds (snd (snd (Import env_demo imp_full ''fmt'' world0))) = []"
    by simp
  from m f1 f2 f3 r 1 2 3 show ?thesis by blast
qed

subsection \<open>C9: a miss is not an error\<close>

text \<open>
  C9. \<open>findAndOpen\<close> returns a stream or \<open>nil\<close> and has no error result. For each of the
  four strategies, when the store has no entry for the path the answer is \<open>nil\<close>: no
  member of that name in the bundle, no pair for the path in the map, no stdlib archive
  ending in the key and no stdlib directory holding it, no unmapped archive ending in
  \<open>/path.x\<close>. The errors of construction are the error of opening a bundle and the
  malformed mapped entry.
\<close>

theorem findAndOpen_miss_is_absent:
  "(z_files z (goEnvDir (z_ctxt z) @ ''/'' @ TrimPrefix p ''google3/'' @ ''.x'') = None \<longrightarrow>
      zipReader_findAndOpen z p w = (None, w)) \<and>
   (ma_pkgs ma p = None \<longrightarrow> mappedArchives_findAndOpen e ma p w = (None, w)) \<and>
   ((\<forall>f\<in>set (sa_archs sa).
        \<not> HasSuffix f (''/'' @ goEnvDir (sa_ctxt sa) @ ''/'' @ p @ ''.a'') \<and>
        (os_Stat e f = Inr True \<longrightarrow>
           (\<forall>d. os_Open e (filepath_Join e f (''/'' @ goEnvDir (sa_ctxt sa) @ ''/'' @ p @ ''.a''))
                  \<noteq> Inr d))) \<longrightarrow>
      fst (stdlibArchives_findAndOpen e sa p w) = None) \<and>
   ((\<forall>f\<in>set (ua_archs ua). \<not> HasSuffix f (''/'' @ TrimPrefix p ''google3/'' @ ''.x'')) \<longrightarrow>
      unmappedArchives_findAndOpen e ua p w = (None, w)) \<and>
   (fst (NewFromZips e ctxt us ms ss zs w) = Inl err \<longrightarrow>
      (\<exists>d\<in>set zs. zip_OpenReader e d = Inl err) \<or>
      (\<exists>a\<in>set ms. length (Split a (CHR '':'')) \<noteq> 2 \<and> err = ArchiveNotPair (Split a (CHR '':''))))"
proof (intro conjI impI)
  assume "z_files z (goEnvDir (z_ctxt z) @ ''/'' @ TrimPrefix p ''google3/'' @ ''.x'') = None"
  then show "zipReader_findAndOpen z p w = (None, w)"
    by (simp add: zipReader_findAndOpen_def Let_def)
next
  assume "ma_pkgs ma p = None"
  then show "mappedArchives_findAndOpen e ma p w = (None, w)"
    by (simp add: mappedArchives_findAndOpen_def)
next
  assume "\<forall>f\<in>set (sa_archs sa).
        \<not> HasSuffix f (''/'' @ goEnvDir (sa_ctxt sa) @ ''/'' @ p @ ''.a'') \<and>
        (os_Stat e f = Inr True \<longrightarrow>
           (\<forall>d. os_Open e (filepath_Join e f (''/'' @ goEnvDir (sa_ctxt sa) @ ''/'' @ p @ ''.a''))
                  \<noteq> Inr d))"
  then show "fst (stdlibArchives_findAndOpen e sa p w) = None"
    unfolding stdlibArchives_findAndOpen_def Let_def by (rule stdlib_range_miss)
next
  assume "\<forall>f\<in>set (ua_archs ua). \<not> HasSuffix f (''/'' @ TrimPrefix p ''google3/'' @ ''.x'')"
  then show "unmappedArchives_findAndOpen e ua p w = (None, w)"
    unfolding unmappedArchives_findAndOpen_def Let_def by (rule unmapped_range_miss)
next
  assume "fst (NewFromZips e ctxt us ms ss zs w) = Inl err"
  then show "(\<exists>d\<in>set zs. zip_OpenReader e d = Inl err) \<or>
      (\<exists>a\<in>set ms. length (Split a (CHR '':'')) \<noteq> 2 \<and> err = ArchiveNotPair (Split a (CHR '':'')))"
    by (rule NewFromZips_Inl)
qed

theorem findAndOpen_miss_is_absent_witness:
  "z_files (newZipReader demo_bundle ctxt_linux)
     (goEnvDir (z_ctxt (newZipReader demo_bundle ctxt_linux)) @ ''/'' @
      TrimPrefix ''google3/errors'' ''google3/'' @ ''.x'') = None \<and>
   zipReader_findAndOpen (newZipReader demo_bundle ctxt_linux) ''google3/errors'' world0
     = (None, world0) \<and>
   mappedArchives_findAndOpen env_demo \<lparr>ma_pkgs = [''yaml'' \<mapsto> ''ext/yaml.a'']\<rparr> ''errors'' world0
     = (None, world0) \<and>
   fst (stdlibArchives_findAndOpen env_demo
          \<lparr>sa_ctxt = ctxt_linux, sa_archs = [''lib/linux_amd64/errors.a'', ''std'']\<rparr>
          ''missing'' world0) = None \<and>
   unmappedArchives_findAndOpen env_demo \<lparr>ua_archs = [''vendor/pkg/errors.x'']\<rparr> ''missing'' world0
     = (None, world0) \<and>
   fst (NewFromZips env_demo ctxt_linux [] [''onlyonename''] [] [] world0)
     = Inl (ArchiveNotPair [''onlyonename'']) \<and>
   (\<exists>a\<in>set [''onlyonename'']. length (Split a (CHR '':'')) \<noteq> 2 \<and>
      ArchiveNotPair [''onlyonename''] = ArchiveNotPair (Split a (CHR '':'')))"
proof -
  let ?z = "newZipReader demo_bundle ctxt_linux"
  let ?ma = "\<lparr>ma_pkgs = [''yaml'' \<mapsto> ''ext/yaml.a'']\<rparr>"
  let ?sa = "\<lparr>sa_ctxt = ctxt_linux, sa_archs = [''lib/linux_amd64/errors.a'', ''std'']\<rparr>"
  let ?ua = "\<lparr>ua_archs = [''vendor/pkg/errors.x'']\<rparr>"
  note t = findAndOpen_miss_is_absent [where z = ?z and p = "''google3/errors''" and w = world0]
  note t' = findAndOpen_miss_is_absent [where p = "''errors''" and w = world0 and ma = ?ma
      and e = env_demo]
  note t'' = findAndOpen_miss_is_absent [where p = "''missing''" and w = world0
      and e = env_demo and sa = ?sa and ua = ?ua and ctxt = ctxt_linux and us = "[]"
      and ms = "[''onlyonename'']" and ss = "[]" and zs = "[]"
      and err = "ArchiveNotPair [''onlyonename'']"]
  have a: "z_files ?z (goEnvDir (z_ctxt ?z) @ ''/'' @ TrimPrefix ''google3/errors'' ''google3/'' @ ''.x'')
      = None" by (simp add: demo_defs)
  with t have 1: "zipReader_findAndOpen ?z ''google3/errors'' world0 = (None, world0)" by blast
  have "ma_pkgs ?ma ''errors'' = None" by simp
  with t' have 2: "mappedArchives_findAndOpen env_demo ?ma ''errors'' world0 = (None, world0)"
    by blast
  have "\<forall>f\<in>set (sa_archs ?sa).
        \<not> HasSuffix f (''/'' @ goEnvDir (sa_ctxt ?sa) @ ''/'' @ ''missing'' @ ''.a'') \<and>
        (os_Stat env_demo f = Inr True \<longrightarrow>
           (\<forall>d. os_Open env_demo
                  (filepath_Join env_demo f (''/'' @ goEnvDir (sa_ctxt ?sa) @ ''/'' @ ''missing'' @ ''.a''))
                  \<noteq> Inr d))"
    by (simp add: demo_defs)
  with t'' have 3: "fst (stdlibArchives_findAndOpen env_demo ?sa ''missing'' world0) = None"
    by blast
  have "\<forall>f\<in>set (ua_archs ?ua). \<not> HasSuffix f (''/'' @ TrimPrefix ''missing'' ''google3/'' @ ''.x'')"
    by (simp add: demo_defs)
  with t'' have 4: "unmappedArchives_findAndOpen env_demo ?ua ''missing'' world0 = (None, world0)"
    by blast
  have 5: "fst (NewFromZips env_demo ctxt_linux [] [''onlyonename''] [] [] world0)
     = Inl (ArchiveNotPair [''onlyonename''])" by (simp add: demo_defs)
  with t'' have 6: "(\<exists>d\<in>set []. zip_OpenReader env_demo d = Inl (ArchiveNotPair [''onlyonename''])) \<or>
     (\<exists>a\<in>set [''onlyonename'']. length (Split a (CHR '':'')) \<noteq> 2 \<and>
      ArchiveNotPair [''onlyonename''] = ArchiveNotPair (Split a (CHR '':'')))" by blast
  then have 7: "\<exists>a\<in>set [''onlyonename'']. length (Split a (CHR '':'')) \<noteq> 2 \<and>
      ArchiveNotPair [''onlyonename''] = ArchiveNotPair (Split a (CHR '':''))" by (simp add: Split_def)
  from a 1 2 3 4 5 7 show ?thesis by blast
qed

subsection \<open>C10: a failed open is a miss\<close>



end
